theory Spec2Isabelle
  imports Main "HOL-Library.Word"
begin

section \<open>The notification center of bump\<close>

text \<open>
  An embedding of \<^verbatim>\<open>include/bump/NotificationCenter.h\<close> and
  \<^verbatim>\<open>src/bump/NotificationCenter.cpp\<close>.

  \<^item> An \<^verbatim>\<open>Observer*\<close> handed to \<^verbatim>\<open>addObserver\<close> is owned by the center from then
    on, so the two vectors of pointers are lists of observer values.
  \<^item> The member functions bound into an observer act on the rest of the program. That
    rest is a state of type \<open>'w\<close>; a bound function takes it and returns it changed,
    together with the exception it threw, if any. The center itself is not part of
    \<open>'w\<close>: a bound function that calls back into the center while a post is running is
    outside this model.
  \<^item> A \<^verbatim>\<open>throw\<close> is a value: a function that can throw returns an \<open>exn\<close>.
  \<^item> \<^verbatim>\<open>unsigned int\<close> is \<open>32 word\<close>.
\<close>

subsection \<open>Exceptions\<close>

text \<open>
  Modelled from the spec: \<^verbatim>\<open>bump/NotificationError.h\<close>, with the exception type and
  the macro \<^verbatim>\<open>BUMP_LOCATION\<close>, is not among the sources; the error type carries a
  message and a source location. The location is that of the \<^verbatim>\<open>throw\<close> the macro is
  an argument of, and there are two of them.
\<close>

datatype location = ObjectObserver_notify | NotificationCenter_destructor

text \<open>
  \<open>NotificationError\<close> is bump's own exception (a message and a location),
  \<open>bad_any_cast\<close> and \<open>bad_function_call\<close> are boost's; \<open>other_exception\<close> is
  anything else a bound member function may throw.
\<close>

datatype exn =
    NotificationError string location
  | bad_any_cast
  | bad_function_call
  | other_exception string

subsection \<open>The operations of \<^verbatim>\<open>bump::String\<close> used here\<close>

text \<open>
  Modelled from the spec: \<^verbatim>\<open>bump/String.h\<close> is not among the sources; a notification
  name is an immutable string key, and equality of names is exact. So a \<^verbatim>\<open>String\<close> is
  a \<open>string\<close> and \<^verbatim>\<open>==\<close> is equality. The spec says nothing about the formatting
  operations the center calls, which are parameters:
  \<open>arg_s f a\<close> is \<^verbatim>\<open>f.arg(a)\<close> for a string \<open>a\<close>, \<open>arg_us f n a\<close> is
  \<^verbatim>\<open>f.arg(n, a)\<close> for an \<^verbatim>\<open>unsigned int\<close> and a string, and \<open>join_s xs sep\<close> is
  \<^verbatim>\<open>String::join(xs, sep)\<close>.
\<close>

record String_h =
  arg_s :: "string \<Rightarrow> string \<Rightarrow> string"
  arg_us :: "string \<Rightarrow> 32 word \<Rightarrow> string \<Rightarrow> string"
  join_s :: "string list \<Rightarrow> string \<Rightarrow> string"

subsection \<open>\<^verbatim>\<open>boost::any\<close>\<close>

text \<open>
  A \<^verbatim>\<open>boost::any\<close> is empty or holds a value together with the \<^verbatim>\<open>typeid\<close> of
  the type it was stored at. \<^verbatim>\<open>any_cast<T>\<close> returns the value when the stored
  \<^verbatim>\<open>typeid\<close> is that of \<open>T\<close> and throws \<^verbatim>\<open>bad_any_cast\<close> otherwise (an empty
  \<^verbatim>\<open>any\<close> has the \<^verbatim>\<open>typeid\<close> of \<^verbatim>\<open>void\<close>, which no parameter type has).
  \<open>'v\<close> is the type of the values that travel as payloads.
\<close>

datatype type_info = Type string | Pointer type_info

datatype 'v boost_any = empty_any | holds type_info 'v

fun any_cast :: "type_info \<Rightarrow> 'v boost_any \<Rightarrow> exn + 'v" where
  "any_cast T empty_any = Inl bad_any_cast"
| "any_cast T (holds U v) = (if U = T then Inr v else Inl bad_any_cast)"

subsection \<open>Observers\<close>

datatype ObserverType = KEY_OBSERVER | OBJECT_OBSERVER

text \<open>What calling a bound member function does: the exception thrown, if any, and the
  program state afterwards.\<close>

type_synonym 'w call = "'w \<Rightarrow> exn option \<times> 'w"

text \<open>
  The members the two subclasses add to \<^verbatim>\<open>Observer\<close>. A \<^verbatim>\<open>boost::function\<close> is
  empty (\<open>None\<close>, the source's \<^verbatim>\<open>NULL\<close>) or holds a function. \<open>T2\<close> is the second
  template argument of \<^verbatim>\<open>ObjectObserver\<close>, as the \<^verbatim>\<open>typeid\<close> it has.
\<close>

datatype ('v, 'w) derived =
    KeyObserver_members
      (functionPointer: "'w call")
  | ObjectObserver_members
      (T2: type_info)
      (functionPointerWithObject: "('v \<Rightarrow> 'w call) option")
      (functionPointerWithPointer: "('v \<Rightarrow> 'w call) option")

text \<open>\<open>observer\<close> is the \<^verbatim>\<open>void*\<close> of the observing object, an address.\<close>

record ('v, 'w) Observer =
  observer :: nat
  notificationName :: string
  observerType :: ObserverType
  members :: "('v, 'w) derived"

text \<open>The constructor of \<^verbatim>\<open>KeyObserver\<close>.\<close>

definition KeyObserver :: "nat \<Rightarrow> 'w call \<Rightarrow> string \<Rightarrow> ('v, 'w) Observer" where
  "KeyObserver obs fp name =
     \<lparr>observer = obs, notificationName = name, observerType = KEY_OBSERVER,
      members = KeyObserver_members fp\<rparr>"

text \<open>The constructors of \<^verbatim>\<open>ObjectObserver\<close> for a member function that takes a
  \<^verbatim>\<open>T2\<close> or a \<^verbatim>\<open>const T2&\<close> (the two have the same body).\<close>

definition ObjectObserver_object ::
  "type_info \<Rightarrow> nat \<Rightarrow> ('v \<Rightarrow> 'w call) \<Rightarrow> string \<Rightarrow> ('v, 'w) Observer" where
  "ObjectObserver_object t2 obs fp name =
     \<lparr>observer = obs, notificationName = name, observerType = OBJECT_OBSERVER,
      members = ObjectObserver_members t2 (Some fp) None\<rparr>"

text \<open>The constructors for a member function that takes a \<^verbatim>\<open>T2*\<close> or a
  \<^verbatim>\<open>const T2*\<close> (again one body).\<close>

definition ObjectObserver_pointer ::
  "type_info \<Rightarrow> nat \<Rightarrow> ('v \<Rightarrow> 'w call) \<Rightarrow> string \<Rightarrow> ('v, 'w) Observer" where
  "ObjectObserver_pointer t2 obs fp name =
     \<lparr>observer = obs, notificationName = name, observerType = OBJECT_OBSERVER,
      members = ObjectObserver_members t2 None (Some fp)\<rparr>"

text \<open>\<^verbatim>\<open>Observer::containsObserver\<close>.\<close>

definition Observer_containsObserver :: "('v, 'w) Observer \<Rightarrow> nat \<Rightarrow> bool" where
  "Observer_containsObserver ob p = (p = observer ob)"

text \<open>
  The virtual \<^verbatim>\<open>notify()\<close>: \<^verbatim>\<open>KeyObserver\<close> overrides it and calls its function
  pointer; \<^verbatim>\<open>ObjectObserver\<close> inherits the empty body of \<^verbatim>\<open>Observer\<close>.
\<close>

definition notify :: "('v, 'w) Observer \<Rightarrow> 'w call" where
  "notify ob w =
     (case members ob of
        KeyObserver_members fp \<Rightarrow> fp w
      | ObjectObserver_members t2 fo fptr \<Rightarrow> (None, w))"

text \<open>
  The body of the \<^verbatim>\<open>try\<close> block of \<^verbatim>\<open>ObjectObserver::notify(const boost::any&)\<close>:
  the cast comes first, the bound function is called with its result.
\<close>

definition notify_try ::
  "type_info \<Rightarrow> ('v \<Rightarrow> 'w call) option \<Rightarrow> ('v \<Rightarrow> 'w call) option \<Rightarrow> 'v boost_any \<Rightarrow> 'w call"
  where
  "notify_try t2 fo fptr object w =
     (case fo of
        Some f \<Rightarrow>
          (case any_cast t2 object of
             Inl e \<Rightarrow> (Some e, w)
           | Inr castObject \<Rightarrow> f castObject w)
      | None \<Rightarrow>
          (case any_cast (Pointer t2) object of
             Inl e \<Rightarrow> (Some e, w)
           | Inr castObject \<Rightarrow>
               (case fptr of
                  Some f \<Rightarrow> f castObject w
                | None \<Rightarrow> (Some bad_function_call, w))))"

text \<open>The message of the error that \<^verbatim>\<open>notify(object)\<close> throws.\<close>

definition invalid_type_msg :: "String_h \<Rightarrow> string \<Rightarrow> string" where
  "invalid_type_msg S name =
     arg_s S (''Notification object for '' @ [CHR 0x22] @ ''%1'' @ [CHR 0x22] @
              '' has invalid type for bound callback.'') name"

text \<open>
  The virtual \<^verbatim>\<open>notify(const boost::any&)\<close>: \<^verbatim>\<open>ObjectObserver\<close> overrides it, and
  its handler turns a \<^verbatim>\<open>bad_any_cast\<close> that leaves the \<^verbatim>\<open>try\<close> block into a
  \<^verbatim>\<open>NotificationError\<close>; \<^verbatim>\<open>KeyObserver\<close> inherits the empty body.
\<close>

definition notify_object :: "String_h \<Rightarrow> ('v, 'w) Observer \<Rightarrow> 'v boost_any \<Rightarrow> 'w call" where
  "notify_object S ob object w =
     (case members ob of
        KeyObserver_members fp \<Rightarrow> (None, w)
      | ObjectObserver_members t2 fo fptr \<Rightarrow>
          (case notify_try t2 fo fptr object w of
             (Some bad_any_cast, w') \<Rightarrow>
               (Some (NotificationError (invalid_type_msg S (notificationName ob))
                        ObjectObserver_notify), w')
           | (r, w') \<Rightarrow> (r, w')))"

subsection \<open>The center\<close>

record ('v, 'w) NotificationCenter =
  keyObservers :: "('v, 'w) Observer list"
  objectObservers :: "('v, 'w) Observer list"

text \<open>The constructor: both vectors are empty.\<close>

definition NotificationCenter :: "('v, 'w) NotificationCenter" where
  "NotificationCenter = \<lparr>keyObservers = [], objectObservers = []\<rparr>"

definition addObserver ::
  "('v, 'w) Observer \<Rightarrow> ('v, 'w) NotificationCenter \<Rightarrow> ('v, 'w) NotificationCenter" where
  "addObserver ob nc =
     (if observerType ob = KEY_OBSERVER
      then nc\<lparr>keyObservers := keyObservers nc @ [ob]\<rparr>
      else nc\<lparr>objectObservers := objectObservers nc @ [ob]\<rparr>)"

text \<open>One of the two loops of \<^verbatim>\<open>containsObserver\<close>: \<open>True\<close> is the early return.\<close>

fun contains_loop :: "('v, 'w) Observer list \<Rightarrow> nat \<Rightarrow> bool" where
  "contains_loop [] p = False"
| "contains_loop (abs_observer # rest) p =
     (if Observer_containsObserver abs_observer p then True else contains_loop rest p)"

text \<open>A member function returns its result and the center as it leaves it.\<close>

definition containsObserver ::
  "nat \<Rightarrow> ('v, 'w) NotificationCenter \<Rightarrow> bool \<times> ('v, 'w) NotificationCenter" where
  "containsObserver p nc =
     (if contains_loop (keyObservers nc) p then (True, nc)
      else if contains_loop (objectObservers nc) p then (True, nc)
      else (False, nc))"

text \<open>
  The loop of \<^verbatim>\<open>postNotification\<close>, from the observers still to visit, the count so
  far and the program state. An exception thrown by \<^verbatim>\<open>notify()\<close> leaves the loop
  (there is no handler), and the count is lost with it.
\<close>

fun post_loop ::
  "('v, 'w) Observer list \<Rightarrow> string \<Rightarrow> 32 word \<Rightarrow> 'w \<Rightarrow> (exn + 32 word) \<times> 'w" where
  "post_loop [] name notification_count w = (Inr notification_count, w)"
| "post_loop (abs_observer # rest) name notification_count w =
     (if notificationName abs_observer = name then
        (case notify abs_observer w of
           (Some e, w') \<Rightarrow> (Inl e, w')
         | (None, w') \<Rightarrow> post_loop rest name (notification_count + 1) w')
      else post_loop rest name notification_count w)"

definition postNotification ::
  "string \<Rightarrow> ('v, 'w) NotificationCenter \<Rightarrow> 'w \<Rightarrow>
     (exn + 32 word) \<times> ('v, 'w) NotificationCenter \<times> 'w" where
  "postNotification name nc w =
     (case post_loop (keyObservers nc) name 0 w of (r, w') \<Rightarrow> (r, nc, w'))"

fun post_object_loop ::
  "String_h \<Rightarrow> ('v, 'w) Observer list \<Rightarrow> string \<Rightarrow> 'v boost_any \<Rightarrow> 32 word \<Rightarrow> 'w \<Rightarrow>
     (exn + 32 word) \<times> 'w" where
  "post_object_loop S [] name object notification_count w = (Inr notification_count, w)"
| "post_object_loop S (abs_observer # rest) name object notification_count w =
     (if notificationName abs_observer = name then
        (case notify_object S abs_observer object w of
           (Some e, w') \<Rightarrow> (Inl e, w')
         | (None, w') \<Rightarrow> post_object_loop S rest name object (notification_count + 1) w')
      else post_object_loop S rest name object notification_count w)"

definition postNotificationWithObject ::
  "String_h \<Rightarrow> string \<Rightarrow> 'v boost_any \<Rightarrow> ('v, 'w) NotificationCenter \<Rightarrow> 'w \<Rightarrow>
     (exn + 32 word) \<times> ('v, 'w) NotificationCenter \<times> 'w" where
  "postNotificationWithObject S name object nc w =
     (case post_object_loop S (objectObservers nc) name object 0 w of (r, w') \<Rightarrow> (r, nc, w'))"

text \<open>
  One of the two loops of \<^verbatim>\<open>removeObserver\<close>: \<open>keep\<close> is the vector of observers to
  keep, \<open>deleted\<close> lists the observers \<^verbatim>\<open>delete\<close> was called on so far, in that order.
\<close>

fun remove_loop ::
  "nat \<Rightarrow> ('v, 'w) Observer list \<Rightarrow> ('v, 'w) Observer list \<Rightarrow> ('v, 'w) Observer list \<Rightarrow>
     ('v, 'w) Observer list \<times> ('v, 'w) Observer list" where
  "remove_loop p [] keep deleted = (keep, deleted)"
| "remove_loop p (abs_observer # rest) keep deleted =
     (if Observer_containsObserver abs_observer p
      then remove_loop p rest keep (deleted @ [abs_observer])
      else remove_loop p rest (keep @ [abs_observer]) deleted)"

text \<open>\<^verbatim>\<open>removeObserver\<close> returns the center and the observers it deleted.\<close>

definition removeObserver ::
  "nat \<Rightarrow> ('v, 'w) NotificationCenter \<Rightarrow>
     ('v, 'w) NotificationCenter \<times> ('v, 'w) Observer list" where
  "removeObserver p nc =
     (case remove_loop p (keyObservers nc) [] [] of
        (key_observers_to_keep, deleted1) \<Rightarrow>
          (let nc1 = nc\<lparr>keyObservers := key_observers_to_keep\<rparr> in
           case remove_loop p (objectObservers nc1) [] deleted1 of
             (object_observers_to_keep, deleted2) \<Rightarrow>
               (nc1\<lparr>objectObservers := object_observers_to_keep\<rparr>, deleted2)))"

text \<open>One of the two loops of the destructor, which collects the quoted names.\<close>

fun collect_keys :: "String_h \<Rightarrow> ('v, 'w) Observer list \<Rightarrow> string list \<Rightarrow> string list" where
  "collect_keys S [] keys = keys"
| "collect_keys S (ob # rest) keys =
     collect_keys S rest (keys @ [arg_s S ([CHR 0x22] @ ''%1'' @ [CHR 0x22]) (notificationName ob)])"

text \<open>
  The destructor: the exception it throws, if any. \<open>total_observers\<close> is an
  \<^verbatim>\<open>unsigned int\<close>, so the sum of the two sizes is cut to 32 bits.
\<close>

definition destructor :: "String_h \<Rightarrow> ('v, 'w) NotificationCenter \<Rightarrow> exn option" where
  "destructor S nc =
     (if keyObservers nc \<noteq> [] \<or> objectObservers nc \<noteq> [] then
        (let keys = collect_keys S (keyObservers nc) [];
             keys = collect_keys S (objectObservers nc) keys;
             key_string = join_s S keys '', '';
             total_observers =
               (word_of_nat (length (keyObservers nc) + length (objectObservers nc)) :: 32 word);
             msg = arg_us S ''bump::NotificationCenter has %1 observers left with keys: %2''
                     total_observers key_string
         in Some (NotificationError msg NotificationCenter_destructor))
      else None)"

subsection \<open>What the operations are compared with\<close>

text \<open>The observers of a vector that observe \<open>name\<close>, in the order of the vector.\<close>

definition named :: "string \<Rightarrow> ('v, 'w) Observer list \<Rightarrow> ('v, 'w) Observer list" where
  "named name obs = filter (\<lambda>ob. notificationName ob = name) obs"

text \<open>The observers of a vector that belong to the object at \<open>p\<close>, and the others.\<close>

definition owned_by :: "nat \<Rightarrow> ('v, 'w) Observer list \<Rightarrow> ('v, 'w) Observer list" where
  "owned_by p obs = filter (\<lambda>ob. observer ob = p) obs"

definition not_owned_by :: "nat \<Rightarrow> ('v, 'w) Observer list \<Rightarrow> ('v, 'w) Observer list" where
  "not_owned_by p obs = filter (\<lambda>ob. observer ob \<noteq> p) obs"

text \<open>
  Making a list of calls one after the other, in the order of the list: the first
  exception ends it, and the calls after it are not made.
\<close>

fun call_in_order :: "'w call list \<Rightarrow> 'w call" where
  "call_in_order [] w = (None, w)"
| "call_in_order (c # cs) w =
     (case c w of
        (Some e, w') \<Rightarrow> (Some e, w')
      | (None, w') \<Rightarrow> call_in_order cs w')"

text \<open>The \<^verbatim>\<open>typeid\<close> that \<^verbatim>\<open>notify(object)\<close> casts the payload to: \<^verbatim>\<open>T2\<close> when
  the function with an object signature is set, \<^verbatim>\<open>T2*\<close> otherwise.\<close>

definition declared_type :: "type_info \<Rightarrow> ('v \<Rightarrow> 'w call) option \<Rightarrow> type_info" where
  "declared_type t2 fo = (case fo of Some f \<Rightarrow> t2 | None \<Rightarrow> Pointer t2)"

text \<open>The \<^verbatim>\<open>typeid\<close> of what a \<^verbatim>\<open>boost::any\<close> holds; an empty one holds nothing.\<close>

fun runtime_type :: "'v boost_any \<Rightarrow> type_info option" where
  "runtime_type empty_any = None"
| "runtime_type (holds U v) = Some U"

text \<open>An observer whose bound member function returns from every program state, that is,
  never throws. An object observer has none that \<^verbatim>\<open>notify()\<close> would call.\<close>

definition never_throws :: "('v, 'w) Observer \<Rightarrow> bool" where
  "never_throws ob =
     (case members ob of
        KeyObserver_members fp \<Rightarrow> (\<forall>w. fst (fp w) = None)
      | ObjectObserver_members t2 fo fptr \<Rightarrow> True)"

text \<open>The error of a payload of the wrong type, and the error of the destructor.\<close>

definition TypeMismatch :: "String_h \<Rightarrow> string \<Rightarrow> exn" where
  "TypeMismatch S name = NotificationError (invalid_type_msg S name) ObjectObserver_notify"

definition LeakedRegistrations :: "String_h \<Rightarrow> 32 word \<Rightarrow> string list \<Rightarrow> exn" where
  "LeakedRegistrations S count names =
     NotificationError
       (arg_us S ''bump::NotificationCenter has %1 observers left with keys: %2'' count
          (join_s S (map (arg_s S ([CHR 0x22] @ ''%1'' @ [CHR 0x22])) names) '', ''))
       NotificationCenter_destructor"

subsection \<open>Data for closed instances\<close>

text \<open>
  In the instances the program state is a log of numbers and a payload value is a
  number. \<open>log_call i\<close> appends \<open>i\<close> to the log and returns, \<open>log_object i\<close> appends
  \<open>i\<close> and the payload it was given, \<open>throwing_call i\<close> appends \<open>i\<close> and throws.
\<close>

definition log_call :: "nat \<Rightarrow> nat list call" where
  "log_call i w = (None, w @ [i])"

definition log_object :: "nat \<Rightarrow> nat \<Rightarrow> nat list call" where
  "log_object i v w = (None, w @ [i, v])"

definition throwing_call :: "nat \<Rightarrow> nat list call" where
  "throwing_call i w = (Some (other_exception ''thrown by the observer''), w @ [i])"

text \<open>Formatting operations for the instances: they put the arguments after the format.
  They stand in for the absent ones of \<^verbatim>\<open>bump::String\<close>, which nothing here depends on.\<close>

definition plain_String :: String_h where
  "plain_String =
     \<lparr>arg_s = (\<lambda>f a. f @ '' <- '' @ a),
      arg_us = (\<lambda>f n a. f @ '' <- '' @ replicate (unat n) CHR ''|'' @ '' <- '' @ a),
      join_s = (\<lambda>xs sep. concat (map (\<lambda>x. x @ sep) xs))\<rparr>"

text \<open>A center with three key observers and three object observers; the objects at
  100 and 200 own two and three of them.\<close>

definition example_center :: "(nat, nat list) NotificationCenter" where
  "example_center =
     \<lparr>keyObservers =
        [KeyObserver 100 (log_call 1) ''N'',
         KeyObserver 200 (log_call 2) ''M'',
         KeyObserver 100 (log_call 3) ''N''],
      objectObservers =
        [ObjectObserver_object (Type ''int'') 200 (log_object 4) ''N'',
         ObjectObserver_pointer (Type ''Event'') 300 (log_object 5) ''N'',
         ObjectObserver_object (Type ''int'') 200 (log_object 6) ''N'']\<rparr>"

text \<open>A center whose second key observer throws, and whose two object observers are
  the same registration made twice.\<close>

definition example_center2 :: "(nat, nat list) NotificationCenter" where
  "example_center2 =
     \<lparr>keyObservers =
        [KeyObserver 100 (log_call 1) ''N'',
         KeyObserver 100 (throwing_call 2) ''N'',
         KeyObserver 100 (log_call 3) ''N''],
      objectObservers =
        [ObjectObserver_object (Type ''int'') 100 (log_object 4) ''N'',
         ObjectObserver_object (Type ''int'') 100 (log_object 4) ''N'']\<rparr>"

section \<open>The loops, without their accumulators\<close>

lemma named_Cons:
  "named name (ob # obs) =
     (if notificationName ob = name then ob # named name obs else named name obs)"
  by (simp add: named_def)

lemma named_append: "named name (xs @ ys) = named name xs @ named name ys"
  by (simp add: named_def)

lemma named_not_owned_by_empty: "named name obs = [] \<Longrightarrow> named name (not_owned_by p obs) = []"
  by (induction obs) (auto simp: named_def not_owned_by_def split: if_splits)

lemma call_in_order_append:
  "call_in_order (cs @ ds) w =
     (case call_in_order cs w of
        (Some e, w') \<Rightarrow> (Some e, w')
      | (None, w') \<Rightarrow> call_in_order ds w')"
  by (induction cs arbitrary: w) (simp_all split: prod.splits option.splits)

lemma call_in_order_returns:
  "(\<forall>c \<in> set cs. \<forall>w. fst (c w) = None) \<Longrightarrow> fst (call_in_order cs w) = None"
proof (induction cs arbitrary: w)
  case Nil
  show ?case by simp
next
  case (Cons c cs)
  obtain r w1 where cw: "c w = (r, w1)" by (cases "c w")
  from Cons.prems have "fst (c w) = None" by simp
  with cw have "r = None" by simp
  with cw Cons show ?case by simp
qed

lemma call_in_order_thrown:
  "fst (call_in_order cs w) = Some e \<Longrightarrow> \<exists>c \<in> set cs. \<exists>w0. fst (c w0) = Some e"
proof (induction cs arbitrary: w)
  case Nil
  then show ?case by simp
next
  case (Cons c cs)
  obtain r w1 where cw: "c w = (r, w1)" by (cases "c w")
  show ?case
  proof (cases r)
    case None
    with cw Cons.prems have "fst (call_in_order cs w1) = Some e" by simp
    from Cons.IH [OF this] show ?thesis by auto
  next
    case (Some e')
    with cw Cons.prems have "fst (c w) = Some e" by simp
    then show ?thesis by auto
  qed
qed

lemma notify_never_throws: "never_throws ob \<Longrightarrow> fst (notify ob w) = None"
  by (simp add: never_throws_def notify_def split: derived.splits)

lemma notify_thrown:
  "fst (notify ob w) = Some e \<Longrightarrow> \<exists>fp. members ob = KeyObserver_members fp \<and> fst (fp w) = Some e"
  by (simp add: notify_def split: derived.splits)

lemma post_loop_eq:
  "post_loop obs name c w =
     (case call_in_order (map notify (named name obs)) w of
        (None, w') \<Rightarrow> (Inr (c + word_of_nat (length (named name obs))), w')
      | (Some e, w') \<Rightarrow> (Inl e, w'))"
proof (induction obs arbitrary: c w)
  case Nil
  show ?case by (simp add: named_def)
next
  case (Cons ob obs)
  show ?case
  proof (cases "notificationName ob = name")
    case True
    obtain r w1 where nw: "notify ob w = (r, w1)" by (cases "notify ob w")
    show ?thesis
    proof (cases r)
      case None
      with True nw Cons.IH [of "c + 1" w1] show ?thesis
        by (simp add: named_def add.assoc split: prod.splits option.splits)
    next
      case (Some e)
      with True nw show ?thesis by (simp add: named_def)
    qed
  next
    case False
    with Cons.IH [of c w] show ?thesis
      by (simp add: named_def split: prod.splits option.splits)
  qed
qed

lemma post_object_loop_eq:
  "post_object_loop S obs name object c w =
     (case call_in_order (map (\<lambda>ob. notify_object S ob object) (named name obs)) w of
        (None, w') \<Rightarrow> (Inr (c + word_of_nat (length (named name obs))), w')
      | (Some e, w') \<Rightarrow> (Inl e, w'))"
proof (induction obs arbitrary: c w)
  case Nil
  show ?case by (simp add: named_def)
next
  case (Cons ob obs)
  show ?case
  proof (cases "notificationName ob = name")
    case True
    obtain r w1 where nw: "notify_object S ob object w = (r, w1)"
      by (cases "notify_object S ob object w")
    show ?thesis
    proof (cases r)
      case None
      with True nw Cons.IH [of "c + 1" w1] show ?thesis
        by (simp add: named_def add.assoc split: prod.splits option.splits)
    next
      case (Some e)
      with True nw show ?thesis by (simp add: named_def)
    qed
  next
    case False
    with Cons.IH [of c w] show ?thesis
      by (simp add: named_def split: prod.splits option.splits)
  qed
qed

lemma contains_loop_iff: "contains_loop obs p \<longleftrightarrow> (\<exists>ob \<in> set obs. observer ob = p)"
  by (induction obs) (auto simp: Observer_containsObserver_def)

lemma remove_loop_eq:
  "remove_loop p obs keep deleted = (keep @ not_owned_by p obs, deleted @ owned_by p obs)"
  by (induction obs arbitrary: keep deleted)
     (auto simp: Observer_containsObserver_def owned_by_def not_owned_by_def)

lemma collect_keys_eq:
  "collect_keys S obs keys =
     keys @ map (arg_s S ([CHR 0x22] @ ''%1'' @ [CHR 0x22])) (map notificationName obs)"
  by (induction obs arbitrary: keys) auto

lemma removeObserver_eq:
  "removeObserver p nc =
     (nc\<lparr>keyObservers := not_owned_by p (keyObservers nc),
         objectObservers := not_owned_by p (objectObservers nc)\<rparr>,
      owned_by p (keyObservers nc) @ owned_by p (objectObservers nc))"
  by (simp add: removeObserver_def remove_loop_eq Let_def)

lemma unat_count: "n < 2 ^ 32 \<Longrightarrow> unat (word_of_nat n :: 32 word) = n"
  by (simp add: unat_of_nat)

section \<open>The member functions, without their loops\<close>

lemma postNotification_eq:
  "postNotification name nc w =
     (case call_in_order (map notify (named name (keyObservers nc))) w of
        (None, w') \<Rightarrow> (Inr (word_of_nat (length (named name (keyObservers nc)))), nc, w')
      | (Some e, w') \<Rightarrow> (Inl e, nc, w'))"
  by (simp add: postNotification_def post_loop_eq split: prod.splits option.splits)

lemma postNotificationWithObject_eq:
  "postNotificationWithObject S name object nc w =
     (case call_in_order
             (map (\<lambda>ob. notify_object S ob object) (named name (objectObservers nc))) w of
        (None, w') \<Rightarrow> (Inr (word_of_nat (length (named name (objectObservers nc)))), nc, w')
      | (Some e, w') \<Rightarrow> (Inl e, nc, w'))"
  by (simp add: postNotificationWithObject_def post_object_loop_eq
      split: prod.splits option.splits)

lemma keyObservers_fold_addObserver:
  "keyObservers (fold addObserver obs nc) =
     keyObservers nc @ filter (\<lambda>ob. observerType ob = KEY_OBSERVER) obs"
  by (induction obs arbitrary: nc) (simp_all add: addObserver_def)

lemma objectObservers_fold_addObserver:
  "objectObservers (fold addObserver obs nc) =
     objectObservers nc @ filter (\<lambda>ob. observerType ob \<noteq> KEY_OBSERVER) obs"
  by (induction obs arbitrary: nc) (simp_all add: addObserver_def)

text \<open>What the closed instances unfold.\<close>

lemmas example_defs =
  example_center_def example_center2_def KeyObserver_def ObjectObserver_object_def
  ObjectObserver_pointer_def log_call_def log_object_def throwing_call_def named_def
  notify_def notify_object_def notify_try_def plain_String_def TypeMismatch_def
  LeakedRegistrations_def invalid_type_msg_def owned_by_def not_owned_by_def

section \<open>Posting without an object\<close>

text \<open>
  Claim C1. \<^verbatim>\<open>postNotification(name)\<close> reads the key observers only. It calls
  \<^verbatim>\<open>notify()\<close> on the key observers that observe \<open>name\<close>, and on no other, in the
  order of the vector, and when none of the calls throws it returns how many they were
  and leaves the program in the state the calls made one after the other lead to. (When
  a call throws, the later ones are not made and the exception leaves the post.) The
  count is an \<^verbatim>\<open>unsigned int\<close>: it is the number itself when the vector has fewer than
  \<open>2 ^ 32\<close> elements. The order of the vector is the order of registration:
  \<^verbatim>\<open>addObserver\<close> puts a key observer behind the ones already there.
\<close>

theorem postNotification_calls_named_in_order:
  "postNotification name nc w =
     (case call_in_order (map notify (named name (keyObservers nc))) w of
        (None, w') \<Rightarrow> (Inr (word_of_nat (length (named name (keyObservers nc)))), nc, w')
      | (Some e, w') \<Rightarrow> (Inl e, nc, w')) \<and>
   (length (keyObservers nc) < 2 ^ 32 \<longrightarrow>
      (\<forall>n nc' w'. postNotification name nc w = (Inr n, nc', w') \<longrightarrow>
         unat n = length (named name (keyObservers nc)))) \<and>
   keyObservers (fold addObserver obs nc) =
     keyObservers nc @ filter (\<lambda>ob. observerType ob = KEY_OBSERVER) obs"
proof (intro conjI impI allI)
  show "postNotification name nc w =
     (case call_in_order (map notify (named name (keyObservers nc))) w of
        (None, w') \<Rightarrow> (Inr (word_of_nat (length (named name (keyObservers nc)))), nc, w')
      | (Some e, w') \<Rightarrow> (Inl e, nc, w'))"
    by (rule postNotification_eq)
next
  fix n nc' w'
  assume small: "length (keyObservers nc) < 2 ^ 32"
    and ret: "postNotification name nc w = (Inr n, nc', w')"
  have "length (named name (keyObservers nc)) \<le> length (keyObservers nc)"
    by (simp add: named_def)
  with small have "length (named name (keyObservers nc)) < 2 ^ 32" by simp
  then have "unat (word_of_nat (length (named name (keyObservers nc))) :: 32 word) =
      length (named name (keyObservers nc))"
    by (rule unat_count)
  moreover from ret have "n = word_of_nat (length (named name (keyObservers nc)))"
    by (auto simp: postNotification_eq split: prod.splits option.splits)
  ultimately show "unat n = length (named name (keyObservers nc))" by simp
next
  show "keyObservers (fold addObserver obs nc) =
     keyObservers nc @ filter (\<lambda>ob. observerType ob = KEY_OBSERVER) obs"
    by (rule keyObservers_fold_addObserver)
qed

text \<open>Posting \<open>N\<close> to the example center calls the first and the third key observer,
  in that order; in the second center the second call throws and the third is not made.\<close>

theorem postNotification_calls_named_in_order_witness:
  "length (keyObservers example_center) < 2 ^ 32 \<and>
   postNotification ''N'' example_center [] = (Inr 2, example_center, [1, 3]) \<and>
   unat (2 :: 32 word) = length (named ''N'' (keyObservers example_center)) \<and>
   postNotification ''N'' example_center2 [] =
     (Inl (other_exception ''thrown by the observer''), example_center2, [1, 2])"
  using postNotification_calls_named_in_order [of "''N''" example_center "[]" "[]"]
    postNotification_calls_named_in_order [of "''N''" example_center2 "[]" "[]"]
  by (simp add: example_defs)

section \<open>Posting an object of the wrong type\<close>

text \<open>
  Claim C2. Let \<open>m\<close> be an object observer of \<open>name\<close> in the vector, let the
  \<^verbatim>\<open>typeid\<close> of the posted object differ from the one \<open>m\<close> casts to, and let the calls
  of \<^verbatim>\<open>notify(object)\<close> on the observers of \<open>name\<close> in front of \<open>m\<close>, made in their
  order, all return, leaving the program in state \<open>w1\<close>. Then \<^verbatim>\<open>notify(object)\<close> on
  \<open>m\<close> throws the \<^verbatim>\<open>NotificationError\<close> for an invalid type and leaves \<open>w1\<close> as it
  is, whatever function \<open>m\<close> has bound, and \<^verbatim>\<open>postNotificationWithObject\<close> ends with
  that exception in state \<open>w1\<close>: the observers in front of \<open>m\<close> were called, \<open>m\<close>'s
  function and the observers behind \<open>m\<close> were not.
\<close>

theorem postNotificationWithObject_type_mismatch:
  assumes stored: "objectObservers nc = before @ m # after"
    and name: "notificationName m = name"
    and object_observer: "members m = ObjectObserver_members t2 fo fptr"
    and mismatch: "runtime_type object \<noteq> Some (declared_type t2 fo)"
    and earlier:
      "call_in_order (map (\<lambda>ob. notify_object S ob object) (named name before)) w = (None, w1)"
  shows "notify_object S m object w1 = (Some (TypeMismatch S name), w1) \<and>
    postNotificationWithObject S name object nc w = (Inl (TypeMismatch S name), nc, w1)"
proof -
  from mismatch have cast: "any_cast (declared_type t2 fo) object = Inl bad_any_cast"
    by (cases object) auto
  then have "notify_try t2 fo fptr object w1 = (Some bad_any_cast, w1)"
    by (cases fo) (simp_all add: notify_try_def declared_type_def)
  with object_observer name
  have m: "notify_object S m object w1 = (Some (TypeMismatch S name), w1)"
    by (simp add: notify_object_def TypeMismatch_def)
  have "named name (objectObservers nc) = named name before @ m # named name after"
    using stored name by (simp add: named_append named_Cons)
  with earlier m
  have "call_in_order
          (map (\<lambda>ob. notify_object S ob object) (named name (objectObservers nc))) w =
        (Some (TypeMismatch S name), w1)"
    by (simp add: call_in_order_append)
  then have "postNotificationWithObject S name object nc w = (Inl (TypeMismatch S name), nc, w1)"
    by (simp add: postNotificationWithObject_eq)
  with m show ?thesis by simp
qed

text \<open>An \<^verbatim>\<open>int\<close> posted to the example center: the first object observer takes it,
  the second expects an \<^verbatim>\<open>Event*\<close>, the third is never called.\<close>

theorem postNotificationWithObject_type_mismatch_witness:
  "objectObservers example_center =
     [ObjectObserver_object (Type ''int'') 200 (log_object 4) ''N''] @
     ObjectObserver_pointer (Type ''Event'') 300 (log_object 5) ''N'' #
     [ObjectObserver_object (Type ''int'') 200 (log_object 6) ''N''] \<and>
   runtime_type (holds (Type ''int'') (7 :: nat)) \<noteq>
     Some (declared_type (Type ''Event'') (None :: (nat \<Rightarrow> nat list call) option)) \<and>
   postNotificationWithObject plain_String ''N'' (holds (Type ''int'') 7) example_center [] =
     (Inl (TypeMismatch plain_String ''N''), example_center, [4, 7])"
  using postNotificationWithObject_type_mismatch [of example_center
      "[ObjectObserver_object (Type ''int'') 200 (log_object 4) ''N'']"
      "ObjectObserver_pointer (Type ''Event'') 300 (log_object 5) ''N''"
      "[ObjectObserver_object (Type ''int'') 200 (log_object 6) ''N'']"
      "''N''" "Type ''Event''" None "Some (log_object 5)" "holds (Type ''int'') 7"
      plain_String "[]" "[4, 7]"]
  by (simp add: example_defs declared_type_def)

section \<open>The destructor\<close>

text \<open>
  Claim C3. The destructor throws nothing when both vectors are empty. Otherwise it
  throws the \<^verbatim>\<open>NotificationError\<close> whose message is made from the number of observers
  in the two vectors and from their notification names, key observers first, each
  vector in its order. The number is an \<^verbatim>\<open>unsigned int\<close>: it is the total itself
  when that is below \<open>2 ^ 32\<close>.
\<close>

theorem destructor_reports_leak:
  "destructor S nc =
     (if keyObservers nc = [] \<and> objectObservers nc = [] then None
      else Some (LeakedRegistrations S
             (word_of_nat (length (keyObservers nc @ objectObservers nc)))
             (map notificationName (keyObservers nc @ objectObservers nc)))) \<and>
   (length (keyObservers nc @ objectObservers nc) < 2 ^ 32 \<longrightarrow>
      unat (word_of_nat (length (keyObservers nc @ objectObservers nc)) :: 32 word) =
        length (keyObservers nc) + length (objectObservers nc))"
proof (intro conjI impI)
  show "destructor S nc =
     (if keyObservers nc = [] \<and> objectObservers nc = [] then None
      else Some (LeakedRegistrations S
             (word_of_nat (length (keyObservers nc @ objectObservers nc)))
             (map notificationName (keyObservers nc @ objectObservers nc))))"
    by (simp add: destructor_def collect_keys_eq LeakedRegistrations_def Let_def)
next
  assume "length (keyObservers nc @ objectObservers nc) < 2 ^ 32"
  then have "unat (word_of_nat (length (keyObservers nc @ objectObservers nc)) :: 32 word) =
      length (keyObservers nc @ objectObservers nc)"
    by (rule unat_count)
  then show "unat (word_of_nat (length (keyObservers nc @ objectObservers nc)) :: 32 word) =
      length (keyObservers nc) + length (objectObservers nc)"
    by simp
qed

theorem destructor_reports_leak_witness:
  "destructor plain_String example_center =
     Some (LeakedRegistrations plain_String 6 [''N'', ''M'', ''N'', ''N'', ''N'', ''N'']) \<and>
   destructor plain_String (NotificationCenter :: (nat, nat list) NotificationCenter) = None \<and>
   unat (6 :: 32 word) = 6"
  using destructor_reports_leak [of plain_String example_center]
    destructor_reports_leak
      [of plain_String "NotificationCenter :: (nat, nat list) NotificationCenter"]
  by (simp add: example_defs NotificationCenter_def)

section \<open>Removing an observing object\<close>

text \<open>
  Claim C4. \<^verbatim>\<open>removeObserver(p)\<close> keeps, in both vectors and in their order, the
  observers whose object is not \<open>p\<close>, and deletes the observers whose object is \<open>p\<close>,
  whatever notification they observe. It has no way to fail. Afterwards
  \<^verbatim>\<open>containsObserver(p)\<close> is false. When no observer belongs to \<open>p\<close> the center is
  unchanged and nothing is deleted.
\<close>

theorem removeObserver_removes_owner:
  "removeObserver p nc =
     (nc\<lparr>keyObservers := not_owned_by p (keyObservers nc),
         objectObservers := not_owned_by p (objectObservers nc)\<rparr>,
      owned_by p (keyObservers nc) @ owned_by p (objectObservers nc)) \<and>
   \<not> fst (containsObserver p (fst (removeObserver p nc))) \<and>
   (owned_by p (keyObservers nc) = [] \<and> owned_by p (objectObservers nc) = [] \<longrightarrow>
      removeObserver p nc = (nc, []))"
proof (intro conjI impI)
  show "removeObserver p nc =
     (nc\<lparr>keyObservers := not_owned_by p (keyObservers nc),
         objectObservers := not_owned_by p (objectObservers nc)\<rparr>,
      owned_by p (keyObservers nc) @ owned_by p (objectObservers nc))"
    by (rule removeObserver_eq)
next
  show "\<not> fst (containsObserver p (fst (removeObserver p nc)))"
    by (simp add: removeObserver_eq containsObserver_def contains_loop_iff not_owned_by_def)
next
  assume none: "owned_by p (keyObservers nc) = [] \<and> owned_by p (objectObservers nc) = []"
  then have "not_owned_by p (keyObservers nc) = keyObservers nc"
    and "not_owned_by p (objectObservers nc) = objectObservers nc"
    by (auto simp: owned_by_def not_owned_by_def filter_empty_conv filter_id_conv)
  with none show "removeObserver p nc = (nc, [])"
    by (simp add: removeObserver_eq)
qed

text \<open>The object at 200 owns a key observer of \<open>M\<close> and two object observers of \<open>N\<close>;
  no observer belongs to 400.\<close>

theorem removeObserver_removes_owner_witness:
  "removeObserver 200 example_center =
     (\<lparr>keyObservers =
         [KeyObserver 100 (log_call 1) ''N'', KeyObserver 100 (log_call 3) ''N''],
       objectObservers = [ObjectObserver_pointer (Type ''Event'') 300 (log_object 5) ''N'']\<rparr>,
      [KeyObserver 200 (log_call 2) ''M'',
       ObjectObserver_object (Type ''int'') 200 (log_object 4) ''N'',
       ObjectObserver_object (Type ''int'') 200 (log_object 6) ''N'']) \<and>
   owned_by 400 (keyObservers example_center) = [] \<and>
   owned_by 400 (objectObservers example_center) = [] \<and>
   removeObserver 400 example_center = (example_center, [])"
  using removeObserver_removes_owner [of 200 example_center]
    removeObserver_removes_owner [of 400 example_center]
  by (simp add: example_defs)

section \<open>Asking for an observing object\<close>

text \<open>
  Claim C6. \<^verbatim>\<open>containsObserver(p)\<close> returns true exactly when some observer in one
  of the two vectors has \<open>p\<close> as its object, and it leaves the center as it was.
\<close>

theorem containsObserver_iff:
  "containsObserver p nc =
     ((\<exists>ob \<in> set (keyObservers nc) \<union> set (objectObservers nc). observer ob = p), nc)"
  by (auto simp: containsObserver_def contains_loop_iff)

theorem containsObserver_iff_witness:
  "containsObserver 300 example_center = (True, example_center) \<and>
   containsObserver 400 example_center = (False, example_center)"
  using containsObserver_iff [of 300 example_center] containsObserver_iff [of 400 example_center]
  by (simp add: example_defs)

section \<open>What posting and asking leave alone\<close>

text \<open>
  Claim C10. \<^verbatim>\<open>postNotification\<close>, \<^verbatim>\<open>postNotificationWithObject\<close> and
  \<^verbatim>\<open>containsObserver\<close> return the center with both vectors as they were, whether
  or not an exception leaves the post. (The bound functions do not reach the center:
  they act on the program state only.)
\<close>

theorem posts_and_containsObserver_keep_center:
  "fst (snd (postNotification name nc w)) = nc \<and>
   fst (snd (postNotificationWithObject S name object nc w)) = nc \<and>
   snd (containsObserver p nc) = nc"
  by (simp add: postNotification_def postNotificationWithObject_def containsObserver_def
      split: prod.splits)

section \<open>What a post returns when a call throws\<close>

text \<open>
  Claim C5 says that the count a post returns is the number of observers of the name
  whether or not one of the calls fails. It is not so: an exception that leaves
  \<^verbatim>\<open>notify\<close> leaves the post as well, and no count is returned. An \<^verbatim>\<open>int\<close> posted
  to the example center finds three object observers of \<open>N\<close>, and the post ends with
  the error of the second one.
\<close>

theorem postNotificationWithObject_count_counterexample:
  "postNotificationWithObject plain_String ''N'' (holds (Type ''int'') 7) example_center [] =
     (Inl (TypeMismatch plain_String ''N''), example_center, [4, 7]) \<and>
   length (named ''N'' (objectObservers example_center)) = 3 \<and>
   fst (postNotificationWithObject plain_String ''N'' (holds (Type ''int'') 7)
          example_center []) \<noteq>
     Inr (word_of_nat (length (named ''N'' (objectObservers example_center))))"
  by (simp add: example_defs postNotificationWithObject_def)

text \<open>
  Claim C5, as amended. For both posts: when the calls on the observers of the name,
  made in their order, all return, the post returns their number (as an
  \<^verbatim>\<open>unsigned int\<close>); when one of them throws, the post returns no count and ends with
  that exception.
\<close>

theorem post_count_unless_thrown:
  "(fst (call_in_order (map notify (named name (keyObservers nc))) w) = None \<longrightarrow>
      fst (postNotification name nc w) =
        Inr (word_of_nat (length (named name (keyObservers nc))))) \<and>
   (\<forall>e. fst (call_in_order (map notify (named name (keyObservers nc))) w) = Some e \<longrightarrow>
      fst (postNotification name nc w) = Inl e) \<and>
   (fst (call_in_order
           (map (\<lambda>ob. notify_object S ob object) (named name (objectObservers nc))) w) = None \<longrightarrow>
      fst (postNotificationWithObject S name object nc w) =
        Inr (word_of_nat (length (named name (objectObservers nc))))) \<and>
   (\<forall>e. fst (call_in_order
           (map (\<lambda>ob. notify_object S ob object) (named name (objectObservers nc))) w) = Some e \<longrightarrow>
      fst (postNotificationWithObject S name object nc w) = Inl e)"
proof (intro conjI impI allI)
  assume "fst (call_in_order (map notify (named name (keyObservers nc))) w) = None"
  then show "fst (postNotification name nc w) =
        Inr (word_of_nat (length (named name (keyObservers nc))))"
    by (cases "call_in_order (map notify (named name (keyObservers nc))) w")
       (simp add: postNotification_eq)
next
  fix e
  assume "fst (call_in_order (map notify (named name (keyObservers nc))) w) = Some e"
  then show "fst (postNotification name nc w) = Inl e"
    by (cases "call_in_order (map notify (named name (keyObservers nc))) w")
       (simp add: postNotification_eq)
next
  assume "fst (call_in_order
           (map (\<lambda>ob. notify_object S ob object) (named name (objectObservers nc))) w) = None"
  then show "fst (postNotificationWithObject S name object nc w) =
        Inr (word_of_nat (length (named name (objectObservers nc))))"
    by (cases "call_in_order
           (map (\<lambda>ob. notify_object S ob object) (named name (objectObservers nc))) w")
       (simp add: postNotificationWithObject_eq)
next
  fix e
  assume "fst (call_in_order
           (map (\<lambda>ob. notify_object S ob object) (named name (objectObservers nc))) w) = Some e"
  then show "fst (postNotificationWithObject S name object nc w) = Inl e"
    by (cases "call_in_order
           (map (\<lambda>ob. notify_object S ob object) (named name (objectObservers nc))) w")
       (simp add: postNotificationWithObject_eq)
qed

theorem post_count_unless_thrown_witness:
  "fst (call_in_order (map notify (named ''N'' (keyObservers example_center))) []) = None \<and>
   fst (postNotification ''N'' example_center []) = Inr 2 \<and>
   fst (call_in_order (map notify (named ''N'' (keyObservers example_center2))) []) =
     Some (other_exception ''thrown by the observer'') \<and>
   fst (postNotification ''N'' example_center2 []) =
     Inl (other_exception ''thrown by the observer'') \<and>
   fst (call_in_order
          (map (\<lambda>ob. notify_object plain_String ob (holds (Type ''int'') 7))
             (named ''N'' (objectObservers example_center2))) []) = None \<and>
   fst (postNotificationWithObject plain_String ''N'' (holds (Type ''int'') 7)
          example_center2 []) = Inr 2 \<and>
   fst (call_in_order
          (map (\<lambda>ob. notify_object plain_String ob (holds (Type ''int'') 7))
             (named ''N'' (objectObservers example_center))) []) =
     Some (TypeMismatch plain_String ''N'') \<and>
   fst (postNotificationWithObject plain_String ''N'' (holds (Type ''int'') 7)
          example_center []) = Inl (TypeMismatch plain_String ''N'')"
  using post_count_unless_thrown [of "''N''" example_center "[]" plain_String "holds (Type ''int'') 7"]
    post_count_unless_thrown [of "''N''" example_center2 "[]" plain_String "holds (Type ''int'') 7"]
  by (simp add: example_defs)

section \<open>Adding twice\<close>

text \<open>
  Claim C7. \<^verbatim>\<open>addObserver\<close> compares nothing: two observers added one after the
  other are both put at the end of the vector of their type, whatever their objects and
  names, the same or not. When both are key observers of \<open>name\<close>,
  \<^verbatim>\<open>postNotification(name)\<close> then calls the observers of \<open>name\<close> that were there and
  after them the two, and counts two more; likewise for two object observers and
  \<^verbatim>\<open>postNotificationWithObject\<close>.
\<close>

theorem addObserver_twice_same_name:
  "keyObservers (addObserver b2 (addObserver b1 nc)) =
     keyObservers nc @ filter (\<lambda>ob. observerType ob = KEY_OBSERVER) [b1, b2] \<and>
   objectObservers (addObserver b2 (addObserver b1 nc)) =
     objectObservers nc @ filter (\<lambda>ob. observerType ob \<noteq> KEY_OBSERVER) [b1, b2] \<and>
   (observerType b1 = KEY_OBSERVER \<and> observerType b2 = KEY_OBSERVER \<and>
    notificationName b1 = name \<and> notificationName b2 = name \<longrightarrow>
      postNotification name (addObserver b2 (addObserver b1 nc)) w =
        (case call_in_order (map notify (named name (keyObservers nc) @ [b1, b2])) w of
           (None, w') \<Rightarrow>
             (Inr (word_of_nat (length (named name (keyObservers nc)) + 2)),
              addObserver b2 (addObserver b1 nc), w')
         | (Some e, w') \<Rightarrow> (Inl e, addObserver b2 (addObserver b1 nc), w'))) \<and>
   (observerType b1 = OBJECT_OBSERVER \<and> observerType b2 = OBJECT_OBSERVER \<and>
    notificationName b1 = name \<and> notificationName b2 = name \<longrightarrow>
      postNotificationWithObject S name object (addObserver b2 (addObserver b1 nc)) w =
        (case call_in_order
                (map (\<lambda>ob. notify_object S ob object)
                   (named name (objectObservers nc) @ [b1, b2])) w of
           (None, w') \<Rightarrow>
             (Inr (word_of_nat (length (named name (objectObservers nc)) + 2)),
              addObserver b2 (addObserver b1 nc), w')
         | (Some e, w') \<Rightarrow> (Inl e, addObserver b2 (addObserver b1 nc), w')))"
proof (intro conjI impI)
  show "keyObservers (addObserver b2 (addObserver b1 nc)) =
     keyObservers nc @ filter (\<lambda>ob. observerType ob = KEY_OBSERVER) [b1, b2]"
    by (simp add: addObserver_def)
next
  show "objectObservers (addObserver b2 (addObserver b1 nc)) =
     objectObservers nc @ filter (\<lambda>ob. observerType ob \<noteq> KEY_OBSERVER) [b1, b2]"
    by (simp add: addObserver_def)
next
  assume key: "observerType b1 = KEY_OBSERVER \<and> observerType b2 = KEY_OBSERVER \<and>
    notificationName b1 = name \<and> notificationName b2 = name"
  then have "named name (keyObservers (addObserver b2 (addObserver b1 nc))) =
      named name (keyObservers nc) @ [b1, b2]"
    by (simp add: addObserver_def named_append named_Cons named_def)
  then show "postNotification name (addObserver b2 (addObserver b1 nc)) w =
        (case call_in_order (map notify (named name (keyObservers nc) @ [b1, b2])) w of
           (None, w') \<Rightarrow>
             (Inr (word_of_nat (length (named name (keyObservers nc)) + 2)),
              addObserver b2 (addObserver b1 nc), w')
         | (Some e, w') \<Rightarrow> (Inl e, addObserver b2 (addObserver b1 nc), w'))"
    by (simp add: postNotification_eq split: prod.splits option.splits)
next
  assume obj: "observerType b1 = OBJECT_OBSERVER \<and> observerType b2 = OBJECT_OBSERVER \<and>
    notificationName b1 = name \<and> notificationName b2 = name"
  then have "named name (objectObservers (addObserver b2 (addObserver b1 nc))) =
      named name (objectObservers nc) @ [b1, b2]"
    by (simp add: addObserver_def named_append named_Cons named_def)
  then show "postNotificationWithObject S name object (addObserver b2 (addObserver b1 nc)) w =
        (case call_in_order
                (map (\<lambda>ob. notify_object S ob object)
                   (named name (objectObservers nc) @ [b1, b2])) w of
           (None, w') \<Rightarrow>
             (Inr (word_of_nat (length (named name (objectObservers nc)) + 2)),
              addObserver b2 (addObserver b1 nc), w')
         | (Some e, w') \<Rightarrow> (Inl e, addObserver b2 (addObserver b1 nc), w'))"
    by (simp add: postNotificationWithObject_eq split: prod.splits option.splits)
qed

text \<open>The same registration twice, for the object at 100 and the name \<open>N\<close>.\<close>

theorem addObserver_twice_same_name_witness:
  "postNotification ''N''
     (addObserver (KeyObserver 100 (log_call 8) ''N'')
        (addObserver (KeyObserver 100 (log_call 8) ''N'') example_center)) [] =
     (Inr 4,
      example_center\<lparr>keyObservers := keyObservers example_center @
        [KeyObserver 100 (log_call 8) ''N'', KeyObserver 100 (log_call 8) ''N'']\<rparr>,
      [1, 3, 8, 8]) \<and>
   postNotificationWithObject plain_String ''N'' (holds (Type ''int'') 7)
     (addObserver (ObjectObserver_object (Type ''int'') 100 (log_object 9) ''N'')
        (addObserver (ObjectObserver_object (Type ''int'') 100 (log_object 9) ''N'')
           NotificationCenter)) [] =
     (Inr 2,
      \<lparr>keyObservers = [],
       objectObservers =
         [ObjectObserver_object (Type ''int'') 100 (log_object 9) ''N'',
          ObjectObserver_object (Type ''int'') 100 (log_object 9) ''N'']\<rparr>,
      [9, 7, 9, 7])"
  using addObserver_twice_same_name [of "KeyObserver 100 (log_call 8) ''N''" "KeyObserver 100 (log_call 8) ''N''"
      example_center "''N''" "[]" plain_String "holds (Type ''int'') 7"]
    addObserver_twice_same_name [of "ObjectObserver_object (Type ''int'') 100 (log_object 9) ''N''"
      "ObjectObserver_object (Type ''int'') 100 (log_object 9) ''N''"
      "NotificationCenter :: (nat, nat list) NotificationCenter" "''N''" "[]" plain_String
      "holds (Type ''int'') 7"]
  by (simp add: example_defs addObserver_def NotificationCenter_def)

section \<open>Adding, posting, removing, posting\<close>

text \<open>
  Claim C8. Let no observer in the center observe \<open>name\<close>, and let \<open>b\<close> be an
  observer of \<open>name\<close> for the object \<open>p\<close>. After \<open>b\<close> is added, a first post of
  \<open>name\<close> of either kind is made, whatever it returns, and \<^verbatim>\<open>removeObserver(p)\<close> is
  called, a second post of \<open>name\<close> of either kind returns 0 and calls nothing, from
  any program state.
\<close>

theorem add_post_remove_post:
  assumes empty_for_name:
      "named name (keyObservers nc) = [] \<and> named name (objectObservers nc) = []"
    and owner: "observer b = p"
    and name: "notificationName b = name"
    and first_post:
      "postNotification name (addObserver b nc) w = (r1, nc1, w1) \<or>
       postNotificationWithObject S name object (addObserver b nc) w = (r1, nc1, w1)"
    and removed: "removeObserver p nc1 = (nc2, deleted)"
  shows "postNotification name nc2 w2 = (Inr 0, nc2, w2) \<and>
    postNotificationWithObject S name object2 nc2 w2 = (Inr 0, nc2, w2)"
proof -
  from first_post have nc1: "nc1 = addObserver b nc"
    by (auto simp: postNotification_def postNotificationWithObject_def split: prod.splits)
  from removed have nc2: "nc2 = nc1\<lparr>keyObservers := not_owned_by p (keyObservers nc1),
         objectObservers := not_owned_by p (objectObservers nc1)\<rparr>"
    by (simp add: removeObserver_eq)
  have b_gone: "not_owned_by p (xs @ [b]) = not_owned_by p xs" for xs
    using owner by (simp add: not_owned_by_def)
  from empty_for_name have "named name (not_owned_by p (keyObservers nc)) = []"
    and "named name (not_owned_by p (objectObservers nc)) = []"
    by (simp_all add: named_not_owned_by_empty)
  then have "named name (keyObservers nc2) = []" and "named name (objectObservers nc2) = []"
    by (simp_all add: nc2 nc1 addObserver_def b_gone)
  then show ?thesis
    by (simp add: postNotification_eq postNotificationWithObject_eq)
qed

theorem add_post_remove_post_witness:
  "named ''Q'' (keyObservers example_center) = [] \<and>
   named ''Q'' (objectObservers example_center) = [] \<and>
   postNotification ''Q'' (addObserver (KeyObserver 100 (log_call 9) ''Q'') example_center) [] =
     (Inr 1, addObserver (KeyObserver 100 (log_call 9) ''Q'') example_center, [9]) \<and>
   removeObserver 100 (addObserver (KeyObserver 100 (log_call 9) ''Q'') example_center) =
     (\<lparr>keyObservers = [KeyObserver 200 (log_call 2) ''M''],
       objectObservers = objectObservers example_center\<rparr>,
      [KeyObserver 100 (log_call 1) ''N'', KeyObserver 100 (log_call 3) ''N'',
       KeyObserver 100 (log_call 9) ''Q'']) \<and>
   postNotification ''Q''
     \<lparr>keyObservers = [KeyObserver 200 (log_call 2) ''M''],
      objectObservers = objectObservers example_center\<rparr> [9] =
     (Inr 0,
      \<lparr>keyObservers = [KeyObserver 200 (log_call 2) ''M''],
       objectObservers = objectObservers example_center\<rparr>, [9])"
  using add_post_remove_post [of "''Q''" example_center "KeyObserver 100 (log_call 9) ''Q''" 100 "[]"
      "Inr 1" "addObserver (KeyObserver 100 (log_call 9) ''Q'') example_center" "[9]"
      plain_String "holds (Type ''int'') 7"
      "\<lparr>keyObservers = [KeyObserver 200 (log_call 2) ''M''],
        objectObservers = objectObservers example_center\<rparr>"
      "[KeyObserver 100 (log_call 1) ''N'', KeyObserver 100 (log_call 3) ''N'',
        KeyObserver 100 (log_call 9) ''Q'']" "[9]" "holds (Type ''int'') 7"]
  by (simp add: example_defs addObserver_def postNotification_def removeObserver_def
      Observer_containsObserver_def)

section \<open>Exceptions of a post without an object\<close>

text \<open>
  Claim C9. When the functions bound into the key observers of \<open>name\<close> never throw,
  \<^verbatim>\<open>postNotification(name)\<close> returns its count. More precisely, an exception that
  leaves \<^verbatim>\<open>postNotification(name)\<close> was thrown by the function bound into a key
  observer of \<open>name\<close>: \<^verbatim>\<open>notify()\<close> casts nothing and throws nothing of its own.
\<close>

theorem postNotification_throws_only_what_observers_throw:
  "(list_all never_throws (named name (keyObservers nc)) \<longrightarrow>
      (\<exists>w'. postNotification name nc w =
         (Inr (word_of_nat (length (named name (keyObservers nc)))), nc, w'))) \<and>
   (\<forall>e. fst (postNotification name nc w) = Inl e \<longrightarrow>
      (\<exists>ob \<in> set (named name (keyObservers nc)). \<exists>fp w0.
         members ob = KeyObserver_members fp \<and> fst (fp w0) = Some e))"
proof (intro conjI impI allI)
  assume quiet: "list_all never_throws (named name (keyObservers nc))"
  have "\<forall>c \<in> set (map notify (named name (keyObservers nc))). \<forall>w. fst (c w) = None"
    using quiet by (auto simp: list_all_iff notify_never_throws)
  then have "fst (call_in_order (map notify (named name (keyObservers nc))) w) = None"
    by (rule call_in_order_returns)
  then show "\<exists>w'. postNotification name nc w =
         (Inr (word_of_nat (length (named name (keyObservers nc)))), nc, w')"
    by (cases "call_in_order (map notify (named name (keyObservers nc))) w")
       (simp add: postNotification_eq)
next
  fix e
  assume thrown: "fst (postNotification name nc w) = Inl e"
  then have "fst (call_in_order (map notify (named name (keyObservers nc))) w) = Some e"
    by (cases "call_in_order (map notify (named name (keyObservers nc))) w")
       (auto simp: postNotification_eq split: option.splits)
  from call_in_order_thrown [OF this]
  obtain ob w0 where ob: "ob \<in> set (named name (keyObservers nc))"
    and "fst (notify ob w0) = Some e" by auto
  from notify_thrown [OF this(2)] ob
  show "\<exists>ob \<in> set (named name (keyObservers nc)). \<exists>fp w0.
         members ob = KeyObserver_members fp \<and> fst (fp w0) = Some e"
    by blast
qed

theorem postNotification_throws_only_what_observers_throw_witness:
  "list_all never_throws (named ''N'' (keyObservers example_center)) \<and>
   postNotification ''N'' example_center [] = (Inr 2, example_center, [1, 3]) \<and>
   fst (postNotification ''N'' example_center2 []) =
     Inl (other_exception ''thrown by the observer'') \<and>
   fst (throwing_call 2 [1]) = Some (other_exception ''thrown by the observer'')"
  using postNotification_throws_only_what_observers_throw [of "''N''" example_center "[]"] postNotification_throws_only_what_observers_throw [of "''N''" example_center2 "[]"]
  by (simp add: example_defs never_throws_def postNotification_def)

end
